theory Spec2Isabelle
  imports Main "HOL-Library.Sublist"
begin

text \<open>
  A shallow embedding of the editor-integration glue of the Elm language server: the
  test-file classification and the command runner of src/util/elmUtils.ts, and the test
  discovery of src/providers/findTestsProvider.ts. The definitions come first, each
  next to the source it follows; the properties come after them. The compiler core
  (forest, type inference, type checker) is not among the source files: what the glue
  calls of it is a parameter, or is modelled from the specification where that is said.
\<close>

section \<open>Paths and test-file classification (src/util/elmUtils.ts)\<close>

subsection \<open>Node's \<open>path.join\<close>\<close>


fun joinWith :: "string \<Rightarrow> string list \<Rightarrow> string" where
  "joinWith sep [] = []"
| "joinWith sep [s] = s"
| "joinWith sep (s # t # ss) = s @ sep @ joinWith sep (t # ss)"







subsection \<open>\<open>isTestFile\<close>\<close>


section \<open>Test discovery (src/providers/findTestsProvider.ts)\<close>

subsection \<open>Syntax trees\<close>

text \<open>
  A \<open>SyntaxNode\<close> of the parsing library (web-tree-sitter) as the provider reads it: the
  node kind \<open>type\<close>, the source \<open>text\<close> it spans, its start position and its children.
  The library's \<open>descendantsOfType\<close> walks the subtree in pre-order, starting at the
  node itself, and keeps the nodes of the requested kind.
\<close>

record Point =
  row :: nat
  column :: nat

datatype SyntaxNode =
  SyntaxNode (type: string) (text_of: string) (startPosition: Point) (children: "SyntaxNode list")

fun descendants :: "SyntaxNode \<Rightarrow> SyntaxNode list" where
  "descendants (SyntaxNode t x p cs) = SyntaxNode t x p cs # concat (map descendants cs)"

definition descendantsOfType :: "SyntaxNode \<Rightarrow> string \<Rightarrow> SyntaxNode list" where
  "descendantsOfType node ty = filter (\<lambda>n. type n = ty) (descendants node)"

text \<open>
  Modelled from the spec: \<open>TreeUtils.findFirstNamedChildOfType\<close> and
  \<open>TreeUtils.findAllTopLevelFunctionDeclarations\<close> (src/util/treeUtils.ts, not among the
  source files). The spec gives the core "a generic tree API (node kind, byte/row-column
  span, typed-descendant traversal)"; the first function is the first child of the
  requested kind, the second the \<open>value_declaration\<close> children of the root, and
  \<open>undefined\<close> when there is none (the caller guards the result with \<open>?.\<close>).
\<close>

definition findFirstNamedChildOfType :: "string \<Rightarrow> SyntaxNode \<Rightarrow> SyntaxNode option" where
  "findFirstNamedChildOfType ty node = find (\<lambda>child. type child = ty) (children node)"

definition findAllTopLevelFunctionDeclarations :: "SyntaxNode \<Rightarrow> SyntaxNode list option" where
  "findAllTopLevelFunctionDeclarations tree =
     (let result = filter (\<lambda>a. type a = ''value_declaration'') (children tree)
      in if result = [] then None else Some result)"

subsection \<open>The expression view\<close>

text \<open>
  The five expression kinds the provider asks for, and the table \<open>typeByNodeType\<close> from
  the expression kind to the node kind of the grammar. The table is total on the five
  keys, so the source's \<open>if (!type) return undefined\<close> is never taken.
\<close>

datatype ExpressionNodeType = ValueExpr | StringConstant | ListExpr | FunctionCallExpr | LetInExpr

fun typeByNodeType :: "ExpressionNodeType \<Rightarrow> string" where
  "typeByNodeType ValueExpr = ''value_expr''"
| "typeByNodeType StringConstant = ''string_constant_expr''"
| "typeByNodeType ListExpr = ''list_expr''"
| "typeByNodeType FunctionCallExpr = ''function_call_expr''"
| "typeByNodeType LetInExpr = ''let_in_expr''"

text \<open>
  Modelled from the spec: \<open>mapSyntaxNodeToExpression\<close> and the \<open>Expression\<close> types
  (src/compiler/utils/expressionTree.ts, not among the source files). The spec: an
  Expression node is an "immutable view over a syntax-tree subtree tagged with a closed
  node-kind discriminator (value reference, function call, string literal, list literal,
  let-in, ...)", obtained by "an explicit kind \<rightarrow> variant mapping table". In the source an
  Expression is the syntax node itself (the types extend \<open>SyntaxNode\<close>) with the tag
  \<open>nodeType\<close> and the fields of its variant, so here an Expression is a \<open>SyntaxNode\<close>,
  \<open>nodeType\<close> is read off the node kind through the table, and the fields are the
  sub-nodes of the subtree: a value reference has its text as \<open>name\<close>, a function
  call has its first child as \<open>target\<close> and the others as \<open>args\<close>, a let-in has its
  last child as \<open>body\<close>, a list literal has its children as \<open>exprList\<close>.
\<close>

type_synonym Expression = SyntaxNode

definition nodeType :: "Expression \<Rightarrow> ExpressionNodeType option" where
  "nodeType e =
     find (\<lambda>k. typeByNodeType k = type e)
       [ValueExpr, StringConstant, ListExpr, FunctionCallExpr, LetInExpr]"

definition mapSyntaxNodeToExpression :: "SyntaxNode option \<Rightarrow> Expression option" where
  "mapSyntaxNodeToExpression node = node"

definition name :: "Expression \<Rightarrow> string" where
  "name e = text_of e"

definition target :: "Expression \<Rightarrow> SyntaxNode option" where
  "target call = (case children call of [] \<Rightarrow> None | c # cs \<Rightarrow> Some c)"

definition args :: "Expression \<Rightarrow> Expression list" where
  "args call = drop 1 (children call)"

definition body :: "Expression \<Rightarrow> SyntaxNode option" where
  "body letIn = (if children letIn = [] then None else Some (last (children letIn)))"

definition exprList :: "Expression \<Rightarrow> Expression list" where
  "exprList l = children l"

text \<open>JavaScript's \<open>xs[i]\<close>: \<open>undefined\<close> out of range.\<close>

definition nth_opt :: "'a list \<Rightarrow> nat \<Rightarrow> 'a option" where
  "nth_opt xs i = (if i < length xs then Some (xs ! i) else None)"

definition mapExpr :: "ExpressionNodeType \<Rightarrow> Expression \<Rightarrow> Expression option" where
  "mapExpr k e = (if nodeType e = Some k then Some e else None)"

definition findExpr :: "ExpressionNodeType \<Rightarrow> SyntaxNode option \<Rightarrow> Expression option" where
  "findExpr key node =
     (case node of
        None \<Rightarrow> None
      | Some node \<Rightarrow>
          (let ty = typeByNodeType key;
               n = (if type node = ty then Some node else nth_opt (descendantsOfType node ty) 0)
           in case mapSyntaxNodeToExpression n of None \<Rightarrow> None | Some e \<Rightarrow> mapExpr key e))"

definition findChildExpr :: "ExpressionNodeType \<Rightarrow> SyntaxNode option \<Rightarrow> Expression option" where
  "findChildExpr key node =
     (case node of
        None \<Rightarrow> None
      | Some node \<Rightarrow>
          (let ty = typeByNodeType key;
               n = (if type node = ty then Some node else findFirstNamedChildOfType ty node)
           in case mapSyntaxNodeToExpression n of None \<Rightarrow> None | Some e \<Rightarrow> mapExpr key e))"

definition findAllExprs :: "ExpressionNodeType \<Rightarrow> SyntaxNode option \<Rightarrow> Expression list option" where
  "findAllExprs key node =
     (case node of
        None \<Rightarrow> None
      | Some node \<Rightarrow>
          (let ty = typeByNodeType key;
               children' = descendantsOfType node ty;
               es = map (\<lambda>n. mapSyntaxNodeToExpression (Some n)) children'
           in Some (concat (map (\<lambda>v. case v of Some x \<Rightarrow> [x] | None \<Rightarrow> [])
                      (map (\<lambda>e. case e of None \<Rightarrow> None | Some e \<Rightarrow> mapExpr key e) es)))))"

subsection \<open>Types, source files, the type checker and programs\<close>

text \<open>
  Modelled from the spec: the type \<open>Type\<close> (src/compiler/typeInference.ts, not among
  the source files). The spec: "Type: tagged variant {Var(id), Unit, Tuple(Type[]),
  Record(fields: map(name \<rightarrow> Type), rowVar?), Function(params: Type[], return: Type),
  Union(module, name, args: Type[]), Unknown, InProgressBinding}". The provider reads
  \<open>nodeType\<close>, \<open>return\<close>, \<open>module\<close> and \<open>name\<close>.
\<close>

datatype Type =
    TVar string
  | TUnit
  | TTuple "Type list"
  | TRecord "(string \<times> Type) list" "Type option"
  | TFunction "Type list" Type
  | TUnion string string "Type list"
  | TUnknown
  | TInProgressBinding

text \<open>
  The fields of \<open>ISourceFile\<close> that the provider reads. A URI stands for the text its
  \<open>toString()\<close> gives; \<open>tree\<close> stands for the root node of the tree.
\<close>

record SourceFile =
  uri :: string
  tree :: SyntaxNode
  isTestFile_flag :: bool

text \<open>
  The type checker (src/compiler/typeChecker.ts) is not among the source files: the four
  methods the provider calls are parameters, and every theorem below holds for all of
  them. \<open>findType\<close> is a function of the node.
\<close>

record TypeChecker =
  findType :: "SyntaxNode \<Rightarrow> Type"
  typeToString :: "Type \<Rightarrow> string"
  getQualifierForName :: "SourceFile \<Rightarrow> string \<Rightarrow> string \<Rightarrow> string option"
  findImportModuleNameNodes :: "string \<Rightarrow> SourceFile \<Rightarrow> SyntaxNode list"

text \<open>
  \<open>IProgram\<close>: the root path, the forest (its \<open>treeMap\<close> in insertion order, which is
  the order of \<open>Map.values()\<close>) and the type checker.
\<close>

record Forest =
  treeMap :: "(string \<times> SourceFile) list"

record Program =
  getRootPath :: string
  getForest :: "bool \<Rightarrow> Forest"
  getTypeChecker :: TypeChecker

subsection \<open>Results and exceptions\<close>

record Position =
  line :: nat
  character :: nat

datatype TestSuite =
  TestSuite (label: string) (tests: "TestSuite list option") (file_of: string) (position: Position)

text \<open>
  The exceptions the provider can meet: the \<open>SyntaxError\<close> of \<open>JSON.parse\<close> and its own
  \<open>NoWorkspaceContainsError\<close>, which carries the URI. A computation that may throw
  returns \<open>exn + 'a\<close>; \<open>sequence\<close> runs a list of them in order and stops at the first
  exception, as \<open>Array.map\<close> with a throwing callback does.
\<close>

datatype exn = SyntaxError string | NoWorkspaceContainsError string

fun sequence :: "('e + 'a) list \<Rightarrow> 'e + 'a list" where
  "sequence [] = Inr []"
| "sequence (r # rs) =
     (case r of
        Inl e \<Rightarrow> Inl e
      | Inr y \<Rightarrow> (case sequence rs of Inl e \<Rightarrow> Inl e | Inr ys \<Rightarrow> Inr (y # ys)))"

definition notUndefinedOrNull :: "'a option \<Rightarrow> bool" where
  "notUndefinedOrNull x = (x \<noteq> None)"

definition lastIndexOf :: "string \<Rightarrow> char \<Rightarrow> int" where
  "lastIndexOf s c =
     (case filter (\<lambda>i. s ! i = c) (rev [0..<length s]) of
        [] \<Rightarrow> - 1
      | i # _ \<Rightarrow> int i)"

definition substring :: "string \<Rightarrow> nat \<Rightarrow> nat \<Rightarrow> string" where
  "substring s indexStart indexEnd = take (indexEnd - indexStart) (drop indexStart s)"

text \<open>
  \<open>stringLiteralToLabel(literal) = String(JSON.parse(literal))\<close>. \<open>JSON.parse\<close> is a
  JavaScript built-in and a parameter here: \<open>JSON_parse literal\<close> is \<open>Some s\<close> when the
  literal parses and \<open>String\<close> of the value is \<open>s\<close>, and \<open>None\<close> when it throws.
\<close>

definition stringLiteralToLabel :: "(string \<Rightarrow> string option) \<Rightarrow> string \<Rightarrow> exn + string" where
  "stringLiteralToLabel JSON_parse literal =
     (case JSON_parse literal of
        None \<Rightarrow> Inl (SyntaxError literal)
      | Some v \<Rightarrow> Inr v)"

subsection \<open>\<open>findTestFunctionCall\<close>\<close>

text \<open>
  \<open>isUnionNamed t m n\<close> is the test
  \<open>t.nodeType === "Union" && t.module === m && t.name === n\<close>, which the source writes
  out twice: for the return type of a function type, and for the type itself.
\<close>

definition isUnionNamed :: "Type \<Rightarrow> string \<Rightarrow> string \<Rightarrow> bool" where
  "isUnionNamed t moduleName' name' =
     (case t of TUnion m n as \<Rightarrow> m = moduleName' \<and> n = name' | _ \<Rightarrow> False)"

function findTestFunctionCall :: "SyntaxNode \<Rightarrow> TypeChecker \<Rightarrow> Expression option" where
  "findTestFunctionCall node typeChecker =
     (case findChildExpr LetInExpr (Some node) of
        Some letIn \<Rightarrow>
          (case body letIn of
             None \<Rightarrow> None
           | Some b \<Rightarrow> findTestFunctionCall b typeChecker)
      | None \<Rightarrow>
          (case findExpr FunctionCallExpr (Some node) of
             None \<Rightarrow> None
           | Some call \<Rightarrow>
               (let t = findType typeChecker call
                in if (case t of
                         TFunction ps r \<Rightarrow> isUnionNamed r ''Test.Internal'' ''Test''
                       | _ \<Rightarrow> False)
                   then Some call
                   else if isUnionNamed t ''Test.Internal'' ''Test'' then Some call
                   else None)))"
  by pat_completeness auto

subsection \<open>\<open>isTestSuite\<close>, \<open>findFirstStringArg\<close>, \<open>findTestSuite\<close>\<close>

text \<open>
  In \<open>isTestSuite\<close> the qualifier is always a string (\<open>?? ""\<close>), so the source's test
  \<open>qualifier !== undefined\<close> holds and is left out.
\<close>

definition isTestSuite :: "Expression \<Rightarrow> SourceFile \<Rightarrow> TypeChecker \<Rightarrow> bool" where
  "isTestSuite call sourceFile typeChecker =
     (let funName = map_option name (findExpr ValueExpr (target call));
          dot = (case funName of None \<Rightarrow> - 1 | Some f \<Rightarrow> lastIndexOf f (CHR ''.''));
          prefix' = (if dot > - 1 then map_option (\<lambda>f. substring f 0 (nat dot)) funName else None);
          qualifier =
            (case prefix' of
               Some p \<Rightarrow>
                 (case getQualifierForName typeChecker sourceFile p ''describe'' of
                    None \<Rightarrow> []
                  | Some q \<Rightarrow> q)
             | None \<Rightarrow> []);
          moduleName =
            (case prefix' of
               Some p \<Rightarrow>
                 map_option text_of (nth_opt (findImportModuleNameNodes typeChecker p sourceFile) 0)
             | None \<Rightarrow> Some ''Test'')
      in funName = Some (qualifier @ ''describe'') \<and> moduleName = Some ''Test'')"

definition findFirstStringArg :: "Expression \<Rightarrow> TypeChecker \<Rightarrow> Expression option" where
  "findFirstStringArg call typeChecker =
     find (\<lambda>arg. let t = findType typeChecker arg in typeToString typeChecker t = ''String'')
       (args call)"

text \<open>
  \<open>label &&\<close> and \<open>label ?\<close> test that the label is a string that is not empty.
\<close>

function findTestSuite ::
  "(string \<Rightarrow> string option) \<Rightarrow> Expression option \<Rightarrow> SourceFile \<Rightarrow> TypeChecker
     \<Rightarrow> exn + TestSuite option" where
  "findTestSuite JSON_parse call sourceFile typeChecker =
     (case call of
        None \<Rightarrow> Inr None
      | Some call \<Rightarrow>
          (let stringArg = findFirstStringArg call typeChecker
           in case (case findAllExprs StringConstant stringArg of
                      None \<Rightarrow> Inr None
                    | Some es \<Rightarrow>
                        (case sequence (map (stringLiteralToLabel JSON_parse) (map text_of es)) of
                           Inl e \<Rightarrow> Inl e
                         | Inr ls \<Rightarrow> Inr (Some ls))) of
                Inl e \<Rightarrow> Inl e
              | Inr labelParts \<Rightarrow>
                  (let position' = \<lparr>line = row (startPosition call),
                                    character = column (startPosition call)\<rparr>;
                       file' = uri sourceFile;
                       label' = (case labelParts of
                                  None \<Rightarrow> None
                                | Some ls \<Rightarrow> if length ls = 1 then nth_opt ls 0 else None)
                   in case label' of
                        None \<Rightarrow> Inr None
                      | Some label' \<Rightarrow>
                          if label' \<noteq> [] \<and> isTestSuite call sourceFile typeChecker then
                            (case map_option exprList (findExpr ListExpr (nth_opt (args call) 1)) of
                               None \<Rightarrow> Inr None
                             | Some testExprs \<Rightarrow>
                                 (case sequence
                                         (map (\<lambda>call. findTestSuite JSON_parse call sourceFile typeChecker)
                                            (map (\<lambda>e. findTestFunctionCall e typeChecker) testExprs)) of
                                    Inl e \<Rightarrow> Inl e
                                  | Inr tests' \<Rightarrow>
                                      Inr (Some (TestSuite label'
                                         (Some (map the (filter notUndefinedOrNull tests')))
                                         file' position'))))
                          else if label' \<noteq> [] then Inr (Some (TestSuite label' None file' position'))
                          else Inr None)))"
  by pat_completeness auto

subsection \<open>\<open>findAllTestSuites\<close>\<close>

text \<open>
  When \<open>findAllTopLevelFunctionDeclarations\<close> gives \<open>undefined\<close>, the callback of
  \<open>flatMap\<close> returns \<open>undefined\<close>, which \<open>flatMap\<close> keeps as one element; the last
  filter removes it.
\<close>

definition findAllTestSuites :: "(string \<Rightarrow> string option) \<Rightarrow> Program \<Rightarrow> exn + TestSuite list" where
  "findAllTestSuites JSON_parse program =
     (let typeChecker = getTypeChecker program
      in case sequence
              (map (\<lambda>sourceFile.
                      case findAllTopLevelFunctionDeclarations (tree sourceFile) of
                        None \<Rightarrow> Inr [None]
                      | Some tops \<Rightarrow>
                          sequence
                            (map (\<lambda>top. findTestSuite JSON_parse
                                           (findTestFunctionCall top typeChecker)
                                           sourceFile typeChecker)
                               tops))
                 (filter (\<lambda>sourceFile. isTestFile_flag sourceFile)
                    (map snd (treeMap (getForest program True))))) of
           Inl e \<Rightarrow> Inl e
         | Inr suites \<Rightarrow> Inr (map the (filter notUndefinedOrNull (concat suites))))"

subsection \<open>The request handler of \<open>FindTestsProvider.register\<close>\<close>

record IFindTestsParams =
  projectFolder :: string

record IFindTestsResponse =
  suites :: "TestSuite list"

datatype ResponseError = ResponseError int string

datatype ConsoleMessage = ConsoleInfo string | ConsoleError string

definition digit :: "nat \<Rightarrow> char" where
  "digit n = ''0123456789'' ! n"

fun string_of_nat :: "nat \<Rightarrow> string" where
  "string_of_nat n =
     (if n < 10 then [digit n] else string_of_nat (n div 10) @ [digit (n mod 10)])"

text \<open>
  The body of the \<open>try\<close> block: the workspaces resolved from the container are a
  parameter. It returns the message logged after the search and the response, or the
  exception thrown.
\<close>

definition findTestsTry ::
  "(string \<Rightarrow> string option) \<Rightarrow> Program list \<Rightarrow> IFindTestsParams
     \<Rightarrow> exn + (ConsoleMessage list \<times> IFindTestsResponse)" where
  "findTestsTry JSON_parse elmWorkspaces params =
     (case find (\<lambda>program. getRootPath program = projectFolder params) elmWorkspaces of
        None \<Rightarrow> Inl (NoWorkspaceContainsError (projectFolder params))
      | Some program \<Rightarrow>
          (case findAllTestSuites JSON_parse program of
             Inl e \<Rightarrow> Inl e
           | Inr suites' \<Rightarrow>
               Inr ([ConsoleInfo (''Found '' @ string_of_nat (length suites')
                                   @ '' top test suites in '' @ projectFolder params)],
                    \<lparr>suites = suites'\<rparr>)))"

definition onFindTestsRequest ::
  "(string \<Rightarrow> string option) \<Rightarrow> Program list \<Rightarrow> IFindTestsParams
     \<Rightarrow> ConsoleMessage list \<times> (ResponseError + IFindTestsResponse)" where
  "onFindTestsRequest JSON_parse elmWorkspaces params =
     (let requested = ConsoleInfo (''Finding tests is requested '' @ projectFolder params)
      in case findTestsTry JSON_parse elmWorkspaces params of
           Inr (found, response) \<Rightarrow> (requested # found, Inr response)
         | Inl err \<Rightarrow>
             ([requested, ConsoleError ''Error finding tests''],
              Inl (ResponseError 13 ''Error finding tests'')))"

section \<open>Running a command (\<open>execCmd\<close>, src/util/elmUtils.ts)\<close>

text \<open>
  \<open>execCmd\<close> starts a child process with \<open>cp.exec\<close> and returns a promise that also
  carries \<open>stdin\<close>, \<open>kill\<close> and \<open>isRunning\<close>. Everything that happens later is a
  callback: data on the two streams, \<open>kill()\<close> on the handle, and the exit callback
  \<open>handleExit\<close>, which \<open>cp.exec\<close> calls once. The model is a state (the three variables of
  the closure, the state of the promise, and the effects on the outside in order) and
  one step per callback.
\<close>

record ExecException =
  message :: string
  code :: "int option"

text \<open>
  The options: a callback is \<open>True\<close> when it is given, and a call of it is recorded as
  an effect; \<open>showMessageOnError\<close> is \<open>True\<close> when the option is set to a true value.
\<close>

record IExecCmdOptions =
  cmdArguments :: "string list option"
  showMessageOnError :: bool
  onStart :: bool
  onStdout :: bool
  onStderr :: bool
  onExit :: bool
  notFoundText :: "string option"

text \<open>What the platform decides: the operating system and the child process.\<close>

record Platform =
  isWindows :: bool
  hasStdout :: bool
  hasStderr :: bool
  pid :: nat

datatype Effect =
    Exec string string
  | CallOnStart
  | CallOnStdout string
  | CallOnStderr string
  | CallOnExit
  | ShowErrorMessage string
  | Spawn string "string list"
  | KillSignal string

datatype PromiseState = Pending | Resolved string string | Rejected ExecException

record ExecState =
  firstResponse :: bool
  wasKilledByUs :: bool
  isRunning :: bool
  promise :: PromiseState
  effects :: "Effect list"

datatype Event =
    StdoutData string
  | StderrData string
  | Kill
  | Exit "ExecException option" string string

text \<open>A promise is settled once: \<open>resolve\<close> and \<open>reject\<close> on a settled promise do nothing.\<close>

definition settle :: "PromiseState \<Rightarrow> ExecState \<Rightarrow> ExecState" where
  "settle outcome st = (if promise st = Pending then st\<lparr>promise := outcome\<rparr> else st)"

definition emit :: "Effect \<Rightarrow> ExecState \<Rightarrow> ExecState" where
  "emit e st = st\<lparr>effects := effects st @ [e]\<rparr>"

definition str_includes :: "string \<Rightarrow> string \<Rightarrow> bool" where
  "str_includes s t = sublist t s"

definition execCmd :: "string \<Rightarrow> IExecCmdOptions \<Rightarrow> string \<Rightarrow> ExecState" where
  "execCmd cmd options elmRootPath =
     (let fullCommand =
            cmd @ '' '' @ joinWith '' '' (case cmdArguments options of None \<Rightarrow> [] | Some as \<Rightarrow> as)
      in \<lparr>firstResponse = True, wasKilledByUs = False, isRunning = True,
          promise = Pending, effects = [Exec fullCommand elmRootPath]\<rparr>)"

definition onData :: "IExecCmdOptions \<Rightarrow> bool \<Rightarrow> Effect \<Rightarrow> ExecState \<Rightarrow> ExecState" where
  "onData options given call st =
     (let st1 = (if firstResponse st \<and> onStart options then emit CallOnStart st else st);
          st2 = st1\<lparr>firstResponse := False\<rparr>
      in if given then emit call st2 else st2)"

definition handleExit ::
  "Platform \<Rightarrow> string \<Rightarrow> IExecCmdOptions \<Rightarrow> ExecException option \<Rightarrow> string \<Rightarrow> string
     \<Rightarrow> ExecState \<Rightarrow> ExecState" where
  "handleExit platform cmd options error stdout stderr st =
     (let st1 = st\<lparr>isRunning := False\<rparr>;
          st2 = (if onExit options then emit CallOnExit st1 else st1)
      in if \<not> wasKilledByUs st2 then
           (case error of
              Some err \<Rightarrow>
                if showMessageOnError options then
                  (let cmdName = takeWhile (\<lambda>c. c \<noteq> CHR '' '') cmd;
                       cmdWasNotFound =
                         ((isWindows platform
                             \<and> str_includes (message err) (CHR 0x27 # cmdName @ CHR 0x27 # '' is not recognized''))
                          \<or> (\<not> isWindows platform \<and> code err = Some 127))
                   in if cmdWasNotFound then
                        emit (ShowErrorMessage
                                (cmdName @ '' is not available in your path. ''
                                   @ (case notFoundText options of
                                        None \<Rightarrow> ''undefined''
                                      | Some t \<Rightarrow> t)))
                          st2
                      else emit (ShowErrorMessage (message err)) st2)
                else settle (Rejected err) st2
            | None \<Rightarrow> settle (Resolved stdout stderr) st2)
         else st2)"

definition killProcess :: "Platform \<Rightarrow> ExecState \<Rightarrow> ExecState" where
  "killProcess platform st =
     (let st1 = st\<lparr>wasKilledByUs := True\<rparr>
      in if isWindows platform then
           emit (Spawn ''taskkill'' [''/pid'', string_of_nat (pid platform), ''/f'', ''/t'']) st1
         else emit (KillSignal ''SIGINT'') st1)"

text \<open>
  One callback. The stream handlers are registered only when the child process has the
  stream, and the handler of \<open>stderr\<close> only after the one of \<open>stdout\<close>.
\<close>

fun step :: "Platform \<Rightarrow> string \<Rightarrow> IExecCmdOptions \<Rightarrow> ExecState \<Rightarrow> Event \<Rightarrow> ExecState" where
  "step platform cmd options st (StdoutData d) =
     (if hasStdout platform then onData options (onStdout options) (CallOnStdout d) st else st)"
| "step platform cmd options st (StderrData d) =
     (if hasStdout platform \<and> hasStderr platform
      then onData options (onStderr options) (CallOnStderr d) st else st)"
| "step platform cmd options st Kill = killProcess platform st"
| "step platform cmd options st (Exit error stdout stderr) =
     handleExit platform cmd options error stdout stderr st"

definition run ::
  "Platform \<Rightarrow> string \<Rightarrow> IExecCmdOptions \<Rightarrow> string \<Rightarrow> Event list \<Rightarrow> ExecState" where
  "run platform cmd options elmRootPath events =
     foldl (step platform cmd options) (execCmd cmd options elmRootPath) events"

fun isExit :: "Event \<Rightarrow> bool" where
  "isExit (Exit error stdout stderr) = True"
| "isExit _ = False"

section \<open>The type checker's \<open>findType\<close> and its cache\<close>

text \<open>
  Modelled from the spec: \<open>TypeChecker.findType\<close> and the \<open>TypeCache\<close>
  (src/compiler/typeChecker.ts, not among the source files). The spec, section 4.5:
  "\<open>findType(node)\<close> is the primary entry point: check TypeCache; on miss, locate the
  node's enclosing top-level declaration and run inference over the whole declaration
  (never an isolated sub-node, since sibling types are mutually determined), populate the
  cache for every sub-node visited, then return the requested node's Type"; section 3:
  "TypeCache: map(node \<rightarrow> Type), owned per Program, keyed by stable node identity".

  The inference engine and the search for the enclosing declaration are parameters.
  Inference over a whole declaration visits the nodes of that declaration, the requested
  node among them. The state counts the inference runs, so that "no new inference work"
  can be stated.
\<close>

record ('n, 'd) InferenceEngine =
  enclosingDeclaration :: "'n \<Rightarrow> 'd"
  inferDeclaration :: "'d \<Rightarrow> 'n \<Rightarrow> Type"

record 'n CheckerState =
  typeCache :: "'n \<Rightarrow> Type option"
  inferenceRuns :: nat

definition findType_cached ::
  "('n, 'd) InferenceEngine \<Rightarrow> 'n \<Rightarrow> 'n CheckerState \<Rightarrow> Type \<times> 'n CheckerState" where
  "findType_cached engine node st =
     (case typeCache st node of
        Some t \<Rightarrow> (t, st)
      | None \<Rightarrow>
          (let declaration = enclosingDeclaration engine node;
               inferred = inferDeclaration engine declaration;
               st' = \<lparr>typeCache =
                        (\<lambda>n. if enclosingDeclaration engine n = declaration
                              then Some (inferred n) else typeCache st n),
                      inferenceRuns = inferenceRuns st + 1\<rparr>
           in (inferred node, st')))"

section \<open>Example inputs\<close>

text \<open>
  A test module \<open>tests/MathTest.elm\<close> with \<open>suite = describe "Math" [ test "adds" ... ]\<close>,
  a module under \<open>src\<close> with the same declaration, a type checker that gives every call
  the type \<open>Test.Internal.Test\<close> and every string literal the type \<open>String\<close>, a decoder
  for string literals without escapes, a failed run of \<open>elm make\<close>, and an inference
  engine over numbered nodes, ten to a declaration. The closed examples further down
  evaluate the definitions on them.
\<close>

definition ex_typeChecker :: TypeChecker where
  "ex_typeChecker =
     \<lparr>findType = (\<lambda>n. if type n = ''function_call_expr'' then TUnion ''Test.Internal'' ''Test'' []
                       else if type n = ''string_constant_expr'' then TUnion ''String'' ''String'' []
                       else TUnknown),
      typeToString = (\<lambda>t. case t of TUnion m n as \<Rightarrow> n | _ \<Rightarrow> ''?''),
      getQualifierForName = (\<lambda>sourceFile p n. None),
      findImportModuleNameNodes = (\<lambda>p sourceFile. [])\<rparr>"

definition ex_JSON_parse :: "string \<Rightarrow> string option" where
  "ex_JSON_parse s =
     (if 2 \<le> length s \<and> hd s = CHR 0x22 \<and> last s = CHR 0x22 then Some (butlast (tl s)) else None)"

definition ex_test :: SyntaxNode where
  "ex_test =
     SyntaxNode ''function_call_expr'' ''test ...'' \<lparr>row = 3, column = 8\<rparr>
       [SyntaxNode ''value_expr'' ''test'' \<lparr>row = 3, column = 8\<rparr> [],
        SyntaxNode ''string_constant_expr'' (CHR 0x22 # ''adds'' @ [CHR 0x22]) \<lparr>row = 3, column = 13\<rparr> []]"

definition ex_describe :: SyntaxNode where
  "ex_describe =
     SyntaxNode ''function_call_expr'' ''describe'' \<lparr>row = 2, column = 4\<rparr>
       [SyntaxNode ''value_expr'' ''describe'' \<lparr>row = 2, column = 4\<rparr> [],
        SyntaxNode ''string_constant_expr'' (CHR 0x22 # ''Math'' @ [CHR 0x22]) \<lparr>row = 2, column = 13\<rparr> [],
        SyntaxNode ''list_expr'' ''[...]'' \<lparr>row = 3, column = 6\<rparr> [ex_test]]"

definition ex_sourceFile :: SourceFile where
  "ex_sourceFile =
     \<lparr>uri = ''file:///ws/tests/MathTest.elm'',
      tree = SyntaxNode ''file'' [] \<lparr>row = 0, column = 0\<rparr>
               [SyntaxNode ''value_declaration'' ''suite = ...'' \<lparr>row = 1, column = 0\<rparr> [ex_describe]],
      isTestFile_flag = True\<rparr>"

definition ex_leaf :: SyntaxNode where
  "ex_leaf = SyntaxNode ''value_expr'' ''something'' \<lparr>row = 6, column = 4\<rparr> []"

definition ex_srcFile :: SourceFile where
  "ex_srcFile =
     \<lparr>uri = ''file:///ws/src/Math.elm'',
      tree = SyntaxNode ''file'' [] \<lparr>row = 0, column = 0\<rparr>
               [SyntaxNode ''value_declaration'' ''suite = ...'' \<lparr>row = 1, column = 0\<rparr> [ex_describe]],
      isTestFile_flag = False\<rparr>"

definition ex_program :: Program where
  "ex_program =
     \<lparr>getRootPath = ''file:///ws'',
      getForest = (\<lambda>includeTestFiles.
        \<lparr>treeMap = [(''file:///ws/tests/MathTest.elm'', ex_sourceFile),
                    (''file:///ws/src/Math.elm'', ex_srcFile)]\<rparr>),
      getTypeChecker = ex_typeChecker\<rparr>"

definition ex_suite :: TestSuite where
  "ex_suite =
     TestSuite ''Math''
       (Some [TestSuite ''adds'' None ''file:///ws/tests/MathTest.elm'' \<lparr>line = 3, character = 8\<rparr>])
       ''file:///ws/tests/MathTest.elm'' \<lparr>line = 2, character = 4\<rparr>"

definition ex_platform :: Platform where
  "ex_platform = \<lparr>isWindows = False, hasStdout = True, hasStderr = True, pid = 4711\<rparr>"

definition ex_options :: "bool \<Rightarrow> IExecCmdOptions" where
  "ex_options showMessage =
     \<lparr>cmdArguments = Some [''make''], showMessageOnError = showMessage, onStart = False,
      onStdout = True, onStderr = False, onExit = True, notFoundText = None\<rparr>"

definition ex_error :: ExecException where
  "ex_error = \<lparr>message = ''Command failed: elm make'', code = Some 1\<rparr>"

definition ex_engine :: "(nat, nat) InferenceEngine" where
  "ex_engine =
     \<lparr>enclosingDeclaration = (\<lambda>n. n div 10),
      inferDeclaration = (\<lambda>d n. if n = 12 then TUnion ''Basics'' ''Int'' [] else TUnknown)\<rparr>"

definition ex_checkerState :: "nat CheckerState" where
  "ex_checkerState = \<lparr>typeCache = (\<lambda>n. None), inferenceRuns = 0\<rparr>"

section \<open>Termination of the two searches\<close>

lemma size_child: "c \<in> set (children n) \<Longrightarrow> size c < size n"
  by (cases n) (auto simp: less_Suc_eq_le intro: size_list_estimation')

lemma findChildExpr_size:
  "findChildExpr k (Some n) = Some m \<Longrightarrow> size m \<le> size n"
  by (auto simp: findChildExpr_def mapSyntaxNodeToExpression_def mapExpr_def
      findFirstNamedChildOfType_def Let_def find_Some_iff
      split: if_splits option.splits dest!: size_child [OF nth_mem] intro: less_imp_le)

lemma body_size: "body l = Some b \<Longrightarrow> size b < size l"
  by (auto simp: body_def split: if_splits intro: size_child)

termination findTestFunctionCall
proof (relation "measure (\<lambda>(n, tc). size n)", goal_cases)
  case 1
  show ?case by simp
next
  case (2 node typeChecker letIn b)
  then have "size letIn \<le> size node" "size b < size letIn"
    by (auto dest: findChildExpr_size body_size)
  then show ?case by simp
qed

lemma descendants_self: "n \<in> set (descendants n)"
  by (cases n) simp

lemma descendants_children:
  "set (descendants n) = insert n (\<Union>c \<in> set (children n). set (descendants c))"
  by (cases n) auto

lemma descendants_size: "m \<in> set (descendants n) \<Longrightarrow> size m \<le> size n"
proof (induction n arbitrary: m rule: descendants.induct)
  case (1 t x p cs)
  show ?case
  proof (cases "m = SyntaxNode t x p cs")
    case True
    then show ?thesis by simp
  next
    case False
    with "1.prems" obtain c where c: "c \<in> set cs" "m \<in> set (descendants c)"
      by auto
    then have "size m \<le> size c" using "1.IH" by blast
    moreover have "size c < size (SyntaxNode t x p cs)"
      using c(1) size_child [of c "SyntaxNode t x p cs"] by simp
    ultimately show ?thesis by simp
  qed
qed

lemma descendants_trans:
  "m \<in> set (descendants n) \<Longrightarrow> k \<in> set (descendants m) \<Longrightarrow> k \<in> set (descendants n)"
proof (induction n arbitrary: m rule: descendants.induct)
  case (1 t x p cs)
  show ?case
  proof (cases "m = SyntaxNode t x p cs")
    case True
    with "1.prems" show ?thesis by simp
  next
    case False
    with "1.prems" obtain c where c: "c \<in> set cs" "m \<in> set (descendants c)"
      by auto
    then have "k \<in> set (descendants c)" using "1.IH" "1.prems"(2) by blast
    with c(1) show ?thesis by auto
  qed
qed

lemma descendants_child:
  "c \<in> set (children n) \<Longrightarrow> c \<in> set (descendants n)"
  using descendants_children [of n] descendants_self [of c] by auto

lemma nth_opt_mem: "nth_opt xs i = Some x \<Longrightarrow> x \<in> set xs"
  by (auto simp: nth_opt_def split: if_splits)

lemma descendantsOfType_descendant:
  "m \<in> set (descendantsOfType n ty) \<Longrightarrow> m \<in> set (descendants n) \<and> type m = ty"
  by (simp add: descendantsOfType_def)

lemma findExpr_descendant:
  "findExpr k (Some n) = Some m \<Longrightarrow> m \<in> set (descendants n)"
  by (auto simp: findExpr_def mapSyntaxNodeToExpression_def mapExpr_def
      Let_def descendants_self
      split: if_splits option.splits dest!: nth_opt_mem descendantsOfType_descendant)

lemma findChildExpr_descendant:
  "findChildExpr k (Some n) = Some m \<Longrightarrow> m \<in> set (descendants n)"
  by (auto simp: findChildExpr_def mapSyntaxNodeToExpression_def mapExpr_def
      findFirstNamedChildOfType_def Let_def descendants_self find_Some_iff
      split: if_splits option.splits intro: descendants_child)

lemma body_descendant: "body l = Some b \<Longrightarrow> b \<in> set (descendants l)"
  by (auto simp: body_def split: if_splits intro: descendants_child)

declare findTestFunctionCall.simps [simp del]

lemma findTestFunctionCall_descendant:
  "findTestFunctionCall n tc = Some c \<Longrightarrow> c \<in> set (descendants n)"
proof (induction n tc rule: findTestFunctionCall.induct)
  case (1 node typeChecker)
  show ?case
  proof (cases "findChildExpr LetInExpr (Some node)")
    case None
    with "1.prems" have "findExpr FunctionCallExpr (Some node) = Some c"
      by (auto simp: findTestFunctionCall.simps [of node] Let_def split: option.splits if_splits)
    then show ?thesis by (rule findExpr_descendant)
  next
    case (Some letIn)
    with "1.prems" obtain b where b: "body letIn = Some b"
      "findTestFunctionCall b typeChecker = Some c"
      by (auto simp: findTestFunctionCall.simps [of node] split: option.splits)
    from "1.IH" [OF Some b(1) b(2)] have "c \<in> set (descendants b)" .
    moreover have "b \<in> set (descendants node)"
      using findChildExpr_descendant [OF Some] body_descendant [OF b(1)]
      by (rule descendants_trans)
    ultimately show ?thesis using descendants_trans by blast
  qed
qed

lemma args_size: "nth_opt (args c) i = Some a \<Longrightarrow> size a < size c"
  by (auto simp: nth_opt_def args_def split: if_splits
      intro!: size_child dest: in_set_dropD [OF nth_mem])

lemma nested_call_size:
  assumes "map_option exprList (findExpr ListExpr (nth_opt (args c) 1)) = Some es"
    and "e \<in> set es"
    and "findTestFunctionCall e tc = Some c'"
  shows "size c' < size c"
proof -
  from assms(1) obtain a l where a: "nth_opt (args c) 1 = Some a"
    and l: "findExpr ListExpr (Some a) = Some l" and es: "es = exprList l"
    by (cases "nth_opt (args c) 1") (auto simp: findExpr_def)
  have "size c' \<le> size e"
    using findTestFunctionCall_descendant [OF assms(3)] by (rule descendants_size)
  also have "size e < size l"
    using assms(2) es by (simp add: exprList_def size_child)
  also have "size l \<le> size a"
    using findExpr_descendant [OF l] by (rule descendants_size)
  also have "size a < size c"
    using a by (rule args_size)
  finally show ?thesis .
qed

termination findTestSuite
proof (relation "measure (\<lambda>(J, call, sf, tc). case call of None \<Rightarrow> 0 | Some c \<Rightarrow> Suc (size c))",
    goal_cases)
  case 1
  show ?case by simp
next
  case (2 JSON_parse call sourceFile typeChecker x2 x b xa xb xc x2a x2b xd)
  from 2 obtain e where e: "e \<in> set x2b" "xd = findTestFunctionCall e typeChecker"
    by auto
  from 2 have m: "map_option exprList (findExpr ListExpr (nth_opt (args x2) 1)) = Some x2b"
    by simp
  from 2 have c: "call = Some x2" by simp
  show ?case
  proof (cases xd)
    case None
    with c show ?thesis by simp
  next
    case (Some c')
    with e have "findTestFunctionCall e typeChecker = Some c'" by simp
    from nested_call_size [OF m e(1) this] Some c show ?thesis by simp
  qed
qed

section \<open>Properties of the test discovery\<close>

subsection \<open>\<open>findTestFunctionCall\<close>\<close>

lemma findExpr_nodeType:
  "findExpr k n = Some e \<Longrightarrow> nodeType e = Some k"
  by (auto simp: findExpr_def mapSyntaxNodeToExpression_def mapExpr_def Let_def
      split: option.splits if_splits)

lemma findTestFunctionCall_Some:
  "findTestFunctionCall node typeChecker = Some call \<Longrightarrow>
     nodeType call = Some FunctionCallExpr \<and>
     ((\<exists>as. findType typeChecker call = TUnion ''Test.Internal'' ''Test'' as) \<or>
      (\<exists>ps as. findType typeChecker call = TFunction ps (TUnion ''Test.Internal'' ''Test'' as)))"
proof (induction node typeChecker rule: findTestFunctionCall.induct)
  case (1 node typeChecker)
  show ?case
  proof (cases "findChildExpr LetInExpr (Some node)")
    case None
    with "1.prems" show ?thesis
      by (auto simp: findTestFunctionCall.simps [of node] isUnionNamed_def Let_def
          dest: findExpr_nodeType split: option.splits Type.splits if_splits)
  next
    case (Some letIn)
    with "1.prems" obtain b where b: "body letIn = Some b"
      "findTestFunctionCall b typeChecker = Some call"
      by (auto simp: findTestFunctionCall.simps [of node] split: option.splits)
    from "1.IH" [OF Some b(1) b(2)] show ?thesis .
  qed
qed

lemma descendantsOfType_mono:
  assumes "m \<in> set (descendants n)" and "descendantsOfType n ty = []"
  shows "descendantsOfType m ty = []"
proof -
  have "set (descendants m) \<subseteq> set (descendants n)"
    using assms(1) descendants_trans by blast
  then show ?thesis
    using assms(2) by (auto simp: descendantsOfType_def filter_empty_conv)
qed

lemma findExpr_no_descendant:
  "descendantsOfType n (typeByNodeType k) = [] \<Longrightarrow> findExpr k (Some n) = None"
  using descendants_self [of n]
  by (auto simp: findExpr_def descendantsOfType_def nth_opt_def filter_empty_conv
      mapSyntaxNodeToExpression_def Let_def)

lemma findTestFunctionCall_no_call:
  "descendantsOfType node ''function_call_expr'' = [] \<Longrightarrow>
     findTestFunctionCall node typeChecker = None"
proof (induction node typeChecker rule: findTestFunctionCall.induct)
  case (1 node typeChecker)
  show ?case
  proof (cases "findChildExpr LetInExpr (Some node)")
    case None
    moreover have "findExpr FunctionCallExpr (Some node) = None"
      using "1.prems" findExpr_no_descendant [of node FunctionCallExpr] by simp
    ultimately show ?thesis
      by (simp add: findTestFunctionCall.simps [of node])
  next
    case (Some letIn)
    show ?thesis
    proof (cases "body letIn")
      case None
      with Some show ?thesis by (simp add: findTestFunctionCall.simps [of node])
    next
      case b: (Some b)
      have "b \<in> set (descendants node)"
        using findChildExpr_descendant [OF Some] body_descendant [OF b]
        by (rule descendants_trans)
      then have "descendantsOfType b ''function_call_expr'' = []"
        using "1.prems" by (rule descendantsOfType_mono)
      from "1.IH" [OF Some b this] Some b show ?thesis
        by (simp add: findTestFunctionCall.simps [of node])
    qed
  qed
qed

text \<open>
  Claim C9. For every syntax node and type checker, \<open>findTestFunctionCall\<close> returns
  either \<open>undefined\<close> or a function-call expression whose type, as \<open>findType\<close> reports
  it, is the union \<open>Test.Internal.Test\<close> or a function type that returns that union;
  it returns \<open>undefined\<close> whenever the node contains no function-call expression.
\<close>

theorem findTestFunctionCall_result:
  "(case findTestFunctionCall node typeChecker of
      None \<Rightarrow> True
    | Some call \<Rightarrow>
        nodeType call = Some FunctionCallExpr \<and>
        ((\<exists>as. findType typeChecker call = TUnion ''Test.Internal'' ''Test'' as) \<or>
         (\<exists>ps as. findType typeChecker call
                     = TFunction ps (TUnion ''Test.Internal'' ''Test'' as))))
   \<and> (descendantsOfType node ''function_call_expr'' = []
        \<longrightarrow> findTestFunctionCall node typeChecker = None)"
  using findTestFunctionCall_Some [of node typeChecker]
    findTestFunctionCall_no_call [of node typeChecker]
  by (auto split: option.splits)

theorem findTestFunctionCall_result_witness:
  "descendantsOfType ex_leaf ''function_call_expr'' = []
   \<and> findTestFunctionCall ex_leaf ex_typeChecker = None
   \<and> findTestFunctionCall ex_describe ex_typeChecker = Some ex_describe
   \<and> nodeType ex_describe = Some FunctionCallExpr
   \<and> findType ex_typeChecker ex_describe = TUnion ''Test.Internal'' ''Test'' []"
proof -
  have d: "descendantsOfType ex_leaf ''function_call_expr'' = []"
    by code_simp
  have c: "findTestFunctionCall ex_describe ex_typeChecker = Some ex_describe"
    by code_simp
  have t: "findType ex_typeChecker ex_describe = TUnion ''Test.Internal'' ''Test'' []"
    by code_simp
  from findTestFunctionCall_result [where node = ex_leaf and typeChecker = ex_typeChecker] d
  have n: "findTestFunctionCall ex_leaf ex_typeChecker = None"
    by blast
  from findTestFunctionCall_result [where node = ex_describe and typeChecker = ex_typeChecker] c
  have "nodeType ex_describe = Some FunctionCallExpr"
    by simp
  with d c t n show ?thesis by simp
qed

subsection \<open>\<open>findTestSuite\<close>\<close>

declare findTestSuite.simps [simp del]

lemma sequence_Inr_map: "sequence rs = Inr ys \<Longrightarrow> rs = map Inr ys"
  by (induction rs arbitrary: ys) (auto split: sum.splits)

lemma labelParts_single:
  assumes "(case findAllExprs StringConstant stringArg of
              None \<Rightarrow> Inr None
            | Some es \<Rightarrow>
                (case sequence (map (stringLiteralToLabel JSON_parse) (map text_of es)) of
                   Inl e \<Rightarrow> Inl e
                 | Inr ls \<Rightarrow> Inr (Some ls))) = Inr labelParts"
    and "(case labelParts of
            None \<Rightarrow> None
          | Some ls \<Rightarrow> if length ls = 1 then nth_opt ls 0 else None) = Some l"
  shows "\<exists>arg e. stringArg = Some arg \<and> findAllExprs StringConstant (Some arg) = Some [e]
           \<and> JSON_parse (text_of e) = Some l"
proof -
  from assms(2) obtain ls where ls: "labelParts = Some ls" "ls = [l]"
    by (cases labelParts) (auto simp: nth_opt_def length_Suc_conv split: if_splits)
  from assms(1) ls obtain es where es: "findAllExprs StringConstant stringArg = Some es"
    "sequence (map (stringLiteralToLabel JSON_parse) (map text_of es)) = Inr [l]"
    by (auto split: option.splits sum.splits)
  from es(1) obtain arg where arg: "stringArg = Some arg"
    by (cases stringArg) (auto simp: findAllExprs_def)
  from sequence_Inr_map [OF es(2)] obtain e where e: "es = [e]"
    "stringLiteralToLabel JSON_parse (text_of e) = Inr l"
    by (cases es) auto
  from e(2) have "JSON_parse (text_of e) = Some l"
    by (auto simp: stringLiteralToLabel_def split: option.splits)
  with arg es(1) e(1) show ?thesis by simp
qed

lemma findTestSuite_Some:
  assumes "findTestSuite JSON_parse (Some call) sourceFile typeChecker = Inr (Some suite)"
  shows "(\<exists>arg e. findFirstStringArg call typeChecker = Some arg
            \<and> findAllExprs StringConstant (Some arg) = Some [e]
            \<and> JSON_parse (text_of e) = Some (label suite))
         \<and> position suite = \<lparr>line = row (startPosition call),
                               character = column (startPosition call)\<rparr>
         \<and> file_of suite = uri sourceFile"
proof -
  let ?parts = "(case findAllExprs StringConstant (findFirstStringArg call typeChecker) of
              None \<Rightarrow> Inr None
            | Some es \<Rightarrow>
                (case sequence (map (stringLiteralToLabel JSON_parse) (map text_of es)) of
                   Inl e \<Rightarrow> Inl e
                 | Inr ls \<Rightarrow> Inr (Some ls)))"
  from assms obtain labelParts where lp: "?parts = Inr labelParts"
    by (cases ?parts) (auto simp: findTestSuite.simps [of _ "Some call"] Let_def)
  let ?label = "(case labelParts of
            None \<Rightarrow> None
          | Some ls \<Rightarrow> if length ls = 1 then nth_opt ls 0 else None)"
  from assms lp obtain l where l: "?label = Some l"
    by (cases ?label) (auto simp: findTestSuite.simps [of _ "Some call"] Let_def)
  from assms lp l have s: "label suite = l
     \<and> position suite = \<lparr>line = row (startPosition call), character = column (startPosition call)\<rparr>
     \<and> file_of suite = uri sourceFile"
    by (auto simp: findTestSuite.simps [of _ "Some call"] Let_def
        split: if_splits option.splits sum.splits)
  from labelParts_single [OF lp l] s show ?thesis by auto
qed



subsection \<open>\<open>findAllTestSuites\<close>\<close>

lemma sequence_map_Inr:
  "sequence (map f xs) = Inr ys \<Longrightarrow> y \<in> set ys \<Longrightarrow> \<exists>x \<in> set xs. f x = Inr y"
proof -
  assume a: "sequence (map f xs) = Inr ys" and y: "y \<in> set ys"
  from sequence_Inr_map [OF a] have "map f xs = map Inr ys" .
  then have "Inr y \<in> set (map f xs)" using y by simp
  then show ?thesis by auto
qed

lemma findTestSuite_file:
  "findTestSuite JSON_parse call sourceFile typeChecker = Inr (Some s) \<Longrightarrow> file_of s = uri sourceFile"
proof (cases call)
  case None
  assume "findTestSuite JSON_parse call sourceFile typeChecker = Inr (Some s)"
  with None show ?thesis by (simp add: findTestSuite.simps)
next
  case (Some c)
  assume "findTestSuite JSON_parse call sourceFile typeChecker = Inr (Some s)"
  with Some findTestSuite_Some [of JSON_parse c sourceFile typeChecker s] show ?thesis by simp
qed

lemma findAllTestSuites_origin:
  assumes "findAllTestSuites JSON_parse program = Inr suites'" and "s \<in> set suites'"
  shows "\<exists>sourceFile \<in> set (map snd (treeMap (getForest program True))).
           isTestFile_flag sourceFile \<and> file_of s = uri sourceFile"
proof -
  let ?tc = "getTypeChecker program"
  let ?f = "\<lambda>sourceFile.
              case findAllTopLevelFunctionDeclarations (tree sourceFile) of
                None \<Rightarrow> Inr [None]
              | Some tops \<Rightarrow>
                  sequence
                    (map (\<lambda>top. findTestSuite JSON_parse (findTestFunctionCall top ?tc) sourceFile ?tc)
                       tops)"
  let ?files = "filter (\<lambda>sourceFile. isTestFile_flag sourceFile)
                  (map snd (treeMap (getForest program True)))"
  from assms(1) obtain xss where xss: "sequence (map ?f ?files) = Inr xss"
    and suites: "suites' = map the (filter notUndefinedOrNull (concat xss))"
    by (auto simp: findAllTestSuites_def Let_def split: sum.splits)
  from assms(2) suites have "Some s \<in> set (concat xss)"
    by (auto simp: notUndefinedOrNull_def)
  then obtain xs where xs: "xs \<in> set xss" "Some s \<in> set xs" by auto
  from sequence_map_Inr [OF xss xs(1)] obtain sf where sf: "sf \<in> set ?files" "?f sf = Inr xs"
    by blast
  from sf(2) xs(2) obtain tops where
    tops: "sequence (map (\<lambda>top. findTestSuite JSON_parse (findTestFunctionCall top ?tc) sf ?tc) tops)
             = Inr xs"
    by (cases "findAllTopLevelFunctionDeclarations (tree sf)") auto
  from sequence_map_Inr [OF tops xs(2)] obtain top where
    "findTestSuite JSON_parse (findTestFunctionCall top ?tc) sf ?tc = Inr (Some s)"
    by blast
  then have "file_of s = uri sf" by (rule findTestSuite_file)
  with sf(1) show ?thesis by auto
qed

lemma findAllTestSuites_remove:
  assumes "treeMap (getForest program True) = before @ (k, sourceFile) # after"
    and "\<not> isTestFile_flag sourceFile"
  shows "findAllTestSuites JSON_parse (program\<lparr>getForest := \<lambda>includeTestFiles. \<lparr>treeMap = before @ after\<rparr>\<rparr>)
           = findAllTestSuites JSON_parse program"
  using assms by (simp add: findAllTestSuites_def)

text \<open>
  Claim C7. \<open>findAllTestSuites\<close> only produces suites from source files whose
  \<open>isTestFile\<close> flag is true: removing a source file with a false flag from the forest
  changes nothing in the result (suites or exception), and every suite of the result
  carries the URI of a source file of the forest whose flag is true.
\<close>

theorem findAllTestSuites_only_test_files:
  "(treeMap (getForest program True) = before @ (k, sourceFile) # after
      \<and> \<not> isTestFile_flag sourceFile
    \<longrightarrow> findAllTestSuites JSON_parse
          (program\<lparr>getForest := \<lambda>includeTestFiles. \<lparr>treeMap = before @ after\<rparr>\<rparr>)
        = findAllTestSuites JSON_parse program)
   \<and> (findAllTestSuites JSON_parse program = Inr suites' \<and> s \<in> set suites'
    \<longrightarrow> (\<exists>testFile \<in> set (map snd (treeMap (getForest program True))).
           isTestFile_flag testFile \<and> file_of s = uri testFile))"
  using findAllTestSuites_remove [of program before k sourceFile after JSON_parse]
    findAllTestSuites_origin [of JSON_parse program suites' s]
  by blast

theorem findAllTestSuites_only_test_files_witness:
  "treeMap (getForest ex_program True)
     = [(''file:///ws/tests/MathTest.elm'', ex_sourceFile)] @ (''file:///ws/src/Math.elm'', ex_srcFile) # []
   \<and> \<not> isTestFile_flag ex_srcFile
   \<and> findAllTestSuites ex_JSON_parse
        (ex_program\<lparr>getForest := \<lambda>includeTestFiles.
           \<lparr>treeMap = [(''file:///ws/tests/MathTest.elm'', ex_sourceFile)] @ []\<rparr>\<rparr>)
      = findAllTestSuites ex_JSON_parse ex_program
   \<and> findAllTestSuites ex_JSON_parse ex_program = Inr [ex_suite]
   \<and> ex_suite \<in> set [ex_suite]
   \<and> (\<exists>testFile \<in> set (map snd (treeMap (getForest ex_program True))).
         isTestFile_flag testFile \<and> file_of ex_suite = uri testFile)"
proof -
  have f: "treeMap (getForest ex_program True)
     = [(''file:///ws/tests/MathTest.elm'', ex_sourceFile)] @ (''file:///ws/src/Math.elm'', ex_srcFile) # []"
    by (simp add: ex_program_def)
  have n: "\<not> isTestFile_flag ex_srcFile"
    by (simp add: ex_srcFile_def)
  have r: "findAllTestSuites ex_JSON_parse ex_program = Inr [ex_suite]"
    by code_simp
  from findAllTestSuites_only_test_files [where program = ex_program
      and before = "[(''file:///ws/tests/MathTest.elm'', ex_sourceFile)]"
      and k = "''file:///ws/src/Math.elm''" and sourceFile = ex_srcFile and after = "[]"
      and JSON_parse = ex_JSON_parse and suites' = "[ex_suite]" and s = ex_suite] f n r
  show ?thesis by simp
qed

subsection \<open>The request handler\<close>

lemma find_first:
  assumes "xs = before @ x # after" and "\<forall>q \<in> set before. \<not> P q" and "P x"
  shows "find P xs = Some x"
  using assms by (induction before arbitrary: xs) auto

lemma find_none: "\<forall>q \<in> set xs. \<not> P q \<Longrightarrow> find P xs = None"
  by (induction xs) auto

text \<open>
  Claim C1 says that a find-tests request is routed to the Program whose root path is a
  prefix of the target URI, and that with no matching Program the caller receives a
  named "workspace not found" failure that carries the URI. The handler compares the two
  texts for equality, and its \<open>catch\<close> turns every exception into the same response:
  for the project folder \<open>file:///ws/tests\<close> and the Program with root \<open>file:///ws\<close>,
  which has a suite, the caller receives \<open>ResponseError(13, "Error finding tests")\<close>,
  the response it also receives for another URI and no Program at all.
\<close>

theorem onFindTestsRequest_counterexample:
  "prefix (getRootPath ex_program) ''file:///ws/tests''
   \<and> findAllTestSuites ex_JSON_parse ex_program = Inr [ex_suite]
   \<and> onFindTestsRequest ex_JSON_parse [ex_program] \<lparr>projectFolder = ''file:///ws/tests''\<rparr>
       = ([ConsoleInfo ''Finding tests is requested file:///ws/tests'',
           ConsoleError ''Error finding tests''],
          Inl (ResponseError 13 ''Error finding tests''))
   \<and> snd (onFindTestsRequest ex_JSON_parse [] \<lparr>projectFolder = ''file:///other''\<rparr>)
       = Inl (ResponseError 13 ''Error finding tests'')"
  by code_simp

text \<open>
  Claim C1, amended. A find-tests request is routed to the first Program whose root
  path, as text, equals the project folder URI of the request: when the search of that
  Program returns suites, the caller receives them. When no Program has that root, the
  handler throws \<open>NoWorkspaceContainsError\<close> with the URI inside its \<open>try\<close> block, and
  the caller receives an error response.
\<close>

theorem onFindTestsRequest_routing:
  "(elmWorkspaces = before @ program # after
      \<and> (\<forall>q \<in> set before. getRootPath q \<noteq> projectFolder params)
      \<and> getRootPath program = projectFolder params
      \<and> findAllTestSuites JSON_parse program = Inr suites'
    \<longrightarrow> snd (onFindTestsRequest JSON_parse elmWorkspaces params) = Inr \<lparr>suites = suites'\<rparr>)
   \<and> ((\<forall>q \<in> set elmWorkspaces. getRootPath q \<noteq> projectFolder params)
    \<longrightarrow> findTestsTry JSON_parse elmWorkspaces params
          = Inl (NoWorkspaceContainsError (projectFolder params))
        \<and> isl (snd (onFindTestsRequest JSON_parse elmWorkspaces params)))"
proof (intro conjI impI)
  assume a: "elmWorkspaces = before @ program # after
      \<and> (\<forall>q \<in> set before. getRootPath q \<noteq> projectFolder params)
      \<and> getRootPath program = projectFolder params
      \<and> findAllTestSuites JSON_parse program = Inr suites'"
  then have "find (\<lambda>program. getRootPath program = projectFolder params) elmWorkspaces
               = Some program"
    by (intro find_first [of _ before program after]) auto
  with a show "snd (onFindTestsRequest JSON_parse elmWorkspaces params) = Inr \<lparr>suites = suites'\<rparr>"
    by (simp add: onFindTestsRequest_def findTestsTry_def)
next
  assume "\<forall>q \<in> set elmWorkspaces. getRootPath q \<noteq> projectFolder params"
  then have n: "find (\<lambda>program. getRootPath program = projectFolder params) elmWorkspaces = None"
    by (rule find_none)
  then show "findTestsTry JSON_parse elmWorkspaces params
          = Inl (NoWorkspaceContainsError (projectFolder params))"
    by (simp add: findTestsTry_def)
  from n show "isl (snd (onFindTestsRequest JSON_parse elmWorkspaces params))"
    by (simp add: onFindTestsRequest_def findTestsTry_def)
qed

theorem onFindTestsRequest_routing_witness:
  "[ex_program] = [] @ ex_program # []
   \<and> getRootPath ex_program = projectFolder \<lparr>projectFolder = ''file:///ws''\<rparr>
   \<and> findAllTestSuites ex_JSON_parse ex_program = Inr [ex_suite]
   \<and> snd (onFindTestsRequest ex_JSON_parse [ex_program] \<lparr>projectFolder = ''file:///ws''\<rparr>)
       = Inr \<lparr>suites = [ex_suite]\<rparr>
   \<and> getRootPath ex_program \<noteq> ''file:///other''
   \<and> findTestsTry ex_JSON_parse [ex_program] \<lparr>projectFolder = ''file:///other''\<rparr>
       = Inl (NoWorkspaceContainsError ''file:///other'')
   \<and> isl (snd (onFindTestsRequest ex_JSON_parse [ex_program] \<lparr>projectFolder = ''file:///other''\<rparr>))"
proof -
  have g: "getRootPath ex_program = ''file:///ws''"
    by (simp add: ex_program_def)
  have r: "findAllTestSuites ex_JSON_parse ex_program = Inr [ex_suite]"
    by code_simp
  from onFindTestsRequest_routing [where elmWorkspaces = "[ex_program]" and before = "[]"
      and program = ex_program and after = "[]" and params = "\<lparr>projectFolder = ''file:///ws''\<rparr>"
      and JSON_parse = ex_JSON_parse and suites' = "[ex_suite]"] g r
  have a: "snd (onFindTestsRequest ex_JSON_parse [ex_program] \<lparr>projectFolder = ''file:///ws''\<rparr>)
       = Inr \<lparr>suites = [ex_suite]\<rparr>"
    by simp
  from onFindTestsRequest_routing [where elmWorkspaces = "[ex_program]"
      and params = "\<lparr>projectFolder = ''file:///other''\<rparr>" and JSON_parse = ex_JSON_parse] g
  have b: "findTestsTry ex_JSON_parse [ex_program] \<lparr>projectFolder = ''file:///other''\<rparr>
       = Inl (NoWorkspaceContainsError ''file:///other'')
   \<and> isl (snd (onFindTestsRequest ex_JSON_parse [ex_program] \<lparr>projectFolder = ''file:///other''\<rparr>))"
    by simp
  from g r a b show ?thesis by simp
qed

section \<open>Properties of the path functions\<close>















section \<open>Properties of \<open>execCmd\<close>\<close>

lemma promise_emit [simp]: "promise (emit e st) = promise st"
  by (simp add: emit_def)

lemma wasKilledByUs_emit [simp]: "wasKilledByUs (emit e st) = wasKilledByUs st"
  by (simp add: emit_def)

lemma effects_emit [simp]: "effects (emit e st) = effects st @ [e]"
  by (simp add: emit_def)

lemma wasKilledByUs_settle [simp]: "wasKilledByUs (settle p st) = wasKilledByUs st"
  by (simp add: settle_def)

lemma effects_settle [simp]: "effects (settle p st) = effects st"
  by (simp add: settle_def)

lemma step_wasKilledByUs:
  "wasKilledByUs (step platform cmd options st ev) = (wasKilledByUs st \<or> ev = Kill)"
  by (cases ev) (auto simp: onData_def handleExit_def killProcess_def Let_def split: option.splits)

lemma foldl_step_wasKilledByUs:
  "wasKilledByUs (foldl (step platform cmd options) st evs) = (wasKilledByUs st \<or> Kill \<in> set evs)"
  by (induction evs arbitrary: st) (auto simp: step_wasKilledByUs)

lemma step_promise_no_exit:
  "\<not> isExit ev \<Longrightarrow> promise (step platform cmd options st ev) = promise st"
  by (cases ev) (auto simp: onData_def killProcess_def Let_def)

lemma foldl_step_promise_no_exit:
  "\<not> list_ex isExit evs \<Longrightarrow> promise (foldl (step platform cmd options) st evs) = promise st"
  by (induction evs arbitrary: st) (auto simp: step_promise_no_exit)

lemma step_effects_mono:
  "e \<in> set (effects st) \<Longrightarrow> e \<in> set (effects (step platform cmd options st ev))"
  by (cases ev) (auto simp: onData_def handleExit_def killProcess_def Let_def split: option.splits)

lemma foldl_step_effects_mono:
  "e \<in> set (effects st) \<Longrightarrow> e \<in> set (effects (foldl (step platform cmd options) st evs))"
  by (induction evs arbitrary: st) (auto simp: step_effects_mono)

lemma handleExit_promise:
  assumes "promise st = Pending"
  shows "promise (handleExit platform cmd options error stdout stderr st) =
     (if wasKilledByUs st then Pending
      else case error of
             None \<Rightarrow> Resolved stdout stderr
           | Some err \<Rightarrow> if showMessageOnError options then Pending else Rejected err)"
  using assms by (auto simp: handleExit_def settle_def Let_def split: option.splits)

lemma handleExit_shows:
  assumes "\<not> wasKilledByUs st" and "showMessageOnError options"
  shows "\<exists>m. ShowErrorMessage m \<in> set (effects (handleExit platform cmd options (Some err) stdout stderr st))"
  using assms by (auto simp: handleExit_def Let_def)

lemma run_split:
  "run platform cmd options root (before @ Exit error stdout stderr # after) =
     foldl (step platform cmd options)
       (handleExit platform cmd options error stdout stderr (run platform cmd options root before))
       after"
  by (simp add: run_def)

lemma run_before_promise:
  "\<not> list_ex isExit before \<Longrightarrow> promise (run platform cmd options root before) = Pending"
  by (simp add: run_def foldl_step_promise_no_exit execCmd_def Let_def)

lemma run_before_killed:
  "wasKilledByUs (run platform cmd options root before) = (Kill \<in> set before)"
  by (simp add: run_def foldl_step_wasKilledByUs execCmd_def Let_def)

text \<open>
  Claim C8. For every run of \<open>execCmd\<close> (the callbacks before the exit, the exit, the
  callbacks after it), the promise is rejected with the exec error if and only if the
  process exits with that error, \<open>kill()\<close> was never called on the returned handle when
  it exits, and \<open>showMessageOnError\<close> is not set. When \<open>showMessageOnError\<close> is set and
  the process exits with an error, not killed by us, the promise stays pending (neither
  resolved nor rejected) and an error message is shown on the connection. Before the
  process exits the promise is pending.
\<close>

theorem execCmd_promise_outcome:
  assumes "\<not> list_ex isExit before" and "\<not> list_ex isExit after"
  shows "promise (run platform cmd options root before) = Pending
       \<and> (promise (run platform cmd options root (before @ Exit error stdout stderr # after)) = Rejected e
            \<longleftrightarrow> error = Some e \<and> Kill \<notin> set before \<and> \<not> showMessageOnError options)
       \<and> (showMessageOnError options \<and> error = Some e \<and> Kill \<notin> set before
            \<longrightarrow> promise (run platform cmd options root (before @ Exit error stdout stderr # after)) = Pending
              \<and> (\<exists>m. ShowErrorMessage m
                        \<in> set (effects (run platform cmd options root
                                          (before @ Exit error stdout stderr # after)))))"
proof -
  let ?st = "run platform cmd options root before"
  let ?ex = "handleExit platform cmd options error stdout stderr ?st"
  have p: "promise (run platform cmd options root (before @ Exit error stdout stderr # after))
             = promise ?ex"
    using assms(2) by (simp add: run_split foldl_step_promise_no_exit)
  have q: "promise ?ex =
     (if Kill \<in> set before then Pending
      else case error of
             None \<Rightarrow> Resolved stdout stderr
           | Some err \<Rightarrow> if showMessageOnError options then Pending else Rejected err)"
    using handleExit_promise [OF run_before_promise [OF assms(1)]]
    by (simp add: run_before_killed)
  have first: "promise (run platform cmd options root (before @ Exit error stdout stderr # after)) = Rejected e
            \<longleftrightarrow> error = Some e \<and> Kill \<notin> set before \<and> \<not> showMessageOnError options"
    unfolding p q by (auto split: option.splits)
  have second: "\<exists>m. ShowErrorMessage m
                        \<in> set (effects (run platform cmd options root
                                          (before @ Exit error stdout stderr # after)))"
    if h: "showMessageOnError options \<and> error = Some e \<and> Kill \<notin> set before"
  proof -
    from h have "\<not> wasKilledByUs ?st" by (simp add: run_before_killed)
    from handleExit_shows [OF this, of options platform cmd e stdout stderr] h
    obtain m where "ShowErrorMessage m \<in> set (effects ?ex)" by auto
    then have "ShowErrorMessage m \<in> set (effects (foldl (step platform cmd options) ?ex after))"
      by (rule foldl_step_effects_mono)
    then show ?thesis unfolding run_split by blast
  qed
  from first second p q run_before_promise [OF assms(1), of platform cmd options root]
  show ?thesis by (auto split: option.splits)
qed

theorem execCmd_promise_outcome_witness:
  "\<not> list_ex isExit [StdoutData ''Success''] \<and> \<not> list_ex isExit [Kill]
   \<and> Kill \<notin> set [StdoutData ''Success'']
   \<and> \<not> showMessageOnError (ex_options False)
   \<and> promise (run ex_platform ''elm'' (ex_options False) ''/ws''
                ([StdoutData ''Success''] @ Exit (Some ex_error) [] [] # [Kill]))
       = Rejected ex_error
   \<and> showMessageOnError (ex_options True)
   \<and> promise (run ex_platform ''elm'' (ex_options True) ''/ws''
                ([StdoutData ''Success''] @ Exit (Some ex_error) [] [] # [Kill]))
       = Pending
   \<and> (\<exists>m. ShowErrorMessage m
              \<in> set (effects (run ex_platform ''elm'' (ex_options True) ''/ws''
                                ([StdoutData ''Success''] @ Exit (Some ex_error) [] [] # [Kill]))))"
proof -
  have h1: "\<not> list_ex isExit [StdoutData ''Success'']" by simp
  have h2: "\<not> list_ex isExit [Kill]" by simp
  have k: "Kill \<notin> set [StdoutData ''Success'']" by simp
  have o1: "\<not> showMessageOnError (ex_options False)" by (simp add: ex_options_def)
  have o2: "showMessageOnError (ex_options True)" by (simp add: ex_options_def)
  from execCmd_promise_outcome [OF h1 h2, where platform = ex_platform and cmd = "''elm''"
      and options = "ex_options False" and root = "''/ws''" and error = "Some ex_error"
      and stdout = "[]" and stderr = "[]" and e = ex_error] k o1
  have a: "promise (run ex_platform ''elm'' (ex_options False) ''/ws''
                ([StdoutData ''Success''] @ Exit (Some ex_error) [] [] # [Kill]))
       = Rejected ex_error"
    by blast
  from execCmd_promise_outcome [OF h1 h2, where platform = ex_platform and cmd = "''elm''"
      and options = "ex_options True" and root = "''/ws''" and error = "Some ex_error"
      and stdout = "[]" and stderr = "[]" and e = ex_error] k o2
  have b: "promise (run ex_platform ''elm'' (ex_options True) ''/ws''
                ([StdoutData ''Success''] @ Exit (Some ex_error) [] [] # [Kill]))
       = Pending
   \<and> (\<exists>m. ShowErrorMessage m
              \<in> set (effects (run ex_platform ''elm'' (ex_options True) ''/ws''
                                ([StdoutData ''Success''] @ Exit (Some ex_error) [] [] # [Kill]))))"
    by blast
  from h1 h2 k o1 o2 a b show ?thesis by blast
qed

text \<open>
  A \<open>kill()\<close> after the exit sets \<open>wasKilledByUs\<close> and sends the signal, and leaves the
  promise as the exit settled it.
\<close>

lemma execCmd_kill_after_exit:
  "promise (run ex_platform ''elm'' (ex_options False) ''/ws'' [Exit (Some ex_error) [] [], Kill])
     = Rejected ex_error
   \<and> wasKilledByUs (run ex_platform ''elm'' (ex_options False) ''/ws''
                      [Exit (Some ex_error) [] [], Kill])"
  by code_simp

section \<open>Properties of the type cache\<close>

text \<open>
  Claim C4. Two calls of \<open>findType\<close> on the same node with nothing in between return
  the same Type, and the second call is answered from the TypeCache: it leaves the state
  as it is, the count of inference runs included, whereas a first call that misses the
  cache counts one run.
\<close>

theorem findType_cached_idempotent:
  "(let (t1, st1) = findType_cached engine node st;
        (t2, st2) = findType_cached engine node st1
    in t2 = t1 \<and> st2 = st1 \<and> inferenceRuns st2 = inferenceRuns st1
       \<and> typeCache st1 node = Some t1
       \<and> (typeCache st node = None \<longrightarrow> inferenceRuns st1 = inferenceRuns st + 1))"
  by (auto simp: findType_cached_def Let_def split: option.splits prod.splits)

theorem findType_cached_idempotent_witness:
  "typeCache ex_checkerState 12 = None
   \<and> fst (findType_cached ex_engine 12 ex_checkerState) = TUnion ''Basics'' ''Int'' []
   \<and> inferenceRuns (snd (findType_cached ex_engine 12 ex_checkerState)) = 1
   \<and> findType_cached ex_engine 12 (snd (findType_cached ex_engine 12 ex_checkerState))
       = (TUnion ''Basics'' ''Int'' [], snd (findType_cached ex_engine 12 ex_checkerState))"
proof -
  have m: "typeCache ex_checkerState 12 = None"
    by (simp add: ex_checkerState_def)
  have t: "fst (findType_cached ex_engine 12 ex_checkerState) = TUnion ''Basics'' ''Int'' []"
    by (simp add: findType_cached_def ex_checkerState_def ex_engine_def Let_def)
  have r: "inferenceRuns ex_checkerState = 0"
    by (simp add: ex_checkerState_def)
  from findType_cached_idempotent [where engine = ex_engine and node = 12 and st = ex_checkerState]
    m t r
  show ?thesis
    by (auto simp: Let_def split: prod.splits)
qed

end
